theory Spec2Isabelle
  imports
    Main
    "HOL-Library.AList"
    "HOL-Library.Char_ord"
    "HOL-Library.List_Lexorder"
    "HOL-Library.Multiset"
    "HOL-Library.Sublist"
begin

section \<open>csv-i18n: the aggregation engine of \<^verbatim>\<open>src/index.js\<close>\<close>

text \<open>
  The development embeds the transformation core of \<^verbatim>\<open>src/index.js\<close>: key derivation,
  the aggregation loop of \<^verbatim>\<open>convertCsvToTs\<close>, the tree builder \<^verbatim>\<open>nestObject\<close> and the two
  emitters \<^verbatim>\<open>generateTypeScriptFiles\<close> and \<^verbatim>\<open>generateI18nextFiles\<close>.

  Conventions of the embedding.
  \<^item> A JavaScript string is a \<open>string\<close>; a character stands for one code unit below 256.
  \<^item> A JavaScript object used as a dictionary is an association list of its own
    properties in insertion order; assignment to a property is \<open>AList.update\<close> (an existing
    property keeps its place, a new one goes to the end) and a read is \<open>map_of\<close>. Properties
    inherited from \<^verbatim>\<open>Object.prototype\<close> and the numeric reordering of array-index names
    are not part of the model: language names, keys and key segments are taken to be
    names that an empty object does not already answer to.
  \<^item> The file system and the CSV library are the environment: a run receives the
    discovered files in discovery order, each with its path relative to the input root
    and with the result of reading and parsing it. Writing a file is recorded as a pair
    of file name and content; the textual serialisation is not modelled.
  \<^item> Every \<^verbatim>\<open>console.warn\<close> and \<^verbatim>\<open>console.error\<close> of the modelled code is a value of type
    \<open>diagnostic\<close>, appended to a log.
\<close>

subsection \<open>Strings\<close>

definition lowerChar :: "char \<Rightarrow> char" where
  "lowerChar c =
     (let n = (of_char c :: nat)
      in if (65 \<le> n \<and> n \<le> 90) \<or> (192 \<le> n \<and> n \<le> 222 \<and> n \<noteq> 215)
         then char_of (n + 32) else c)"

definition toLowerCase :: "string \<Rightarrow> string" where
  "toLowerCase s = map lowerChar s"

definition isWhiteSpace :: "char \<Rightarrow> bool" where
  "isWhiteSpace c = ((of_char c :: nat) \<in> {9, 10, 11, 12, 13, 32, 160})"

definition trim :: "string \<Rightarrow> string" where
  "trim s = rev (dropWhile isWhiteSpace (rev (dropWhile isWhiteSpace s)))"

text \<open>\<^verbatim>\<open>s.split(c)\<close> for a one-character separator: never empty, \<^verbatim>\<open>"".split(".")\<close> is \<^verbatim>\<open>[""]\<close>.\<close>

fun splitOn :: "char \<Rightarrow> string \<Rightarrow> string list" where
  "splitOn c [] = [[]]"
| "splitOn c (x # xs) =
     (if x = c then [] # splitOn c xs
      else (case splitOn c xs of
              [] \<Rightarrow> [[x]]
            | p # ps \<Rightarrow> (x # p) # ps))"

text \<open>\<^verbatim>\<open>parts.join(sep)\<close>.\<close>

fun joinWith :: "string \<Rightarrow> string list \<Rightarrow> string" where
  "joinWith sep [] = []"
| "joinWith sep [p] = p"
| "joinWith sep (p # q # ps) = p @ sep @ joinWith sep (q # ps)"

text \<open>\<^verbatim>\<open>.replace(/\\/g, '/')\<close>: every backslash (code unit 0x5C) becomes a slash.\<close>

definition replaceBackslashes :: "string \<Rightarrow> string" where
  "replaceBackslashes s = map (\<lambda>c. if c = CHR 0x5C then CHR ''/'' else c) s"

text \<open>
  \<^verbatim>\<open>.replace(/\.csv$/i, '')\<close>: the pattern matches only the last four code units, a dot
  followed by c, s, v in either case.
\<close>

definition matchesDotCsv :: "string \<Rightarrow> bool" where
  "matchesDotCsv t =
     (case t of
        [d, c, s, v] \<Rightarrow>
          d = CHR ''.'' \<and> (c = CHR ''c'' \<or> c = CHR ''C'')
            \<and> (s = CHR ''s'' \<or> s = CHR ''S'') \<and> (v = CHR ''v'' \<or> v = CHR ''V'')
      | _ \<Rightarrow> False)"

definition stripCsvSuffix :: "string \<Rightarrow> string" where
  "stripCsvSuffix s =
     (if 4 \<le> length s \<and> matchesDotCsv (drop (length s - 4) s)
      then take (length s - 4) s else s)"

subsection \<open>Parsed CSV files\<close>

text \<open>
  A cell as the aggregation loop tests it: \<^verbatim>\<open>undefined\<close> (the row has no such field),
  \<^verbatim>\<open>null\<close>, or a string. A row is the object the parser builds for one data line.
\<close>

datatype cell = Undefined | Null | Str string

type_synonym row = "(string \<times> cell) list"

definition getField :: "row \<Rightarrow> string \<Rightarrow> cell" where
  "getField r f = (case map_of r f of None \<Rightarrow> Undefined | Some c \<Rightarrow> c)"

text \<open>
  The result of \<^verbatim>\<open>Papa.parse(fileContent, {header: true, ...})\<close>: \<open>errors\<close> is
  \<^verbatim>\<open>parsed.errors\<close>, \<open>metaFields\<close> is \<^verbatim>\<open>parsed.meta.fields\<close> (\<open>None\<close> when it is missing),
  \<open>data\<close> is \<^verbatim>\<open>parsed.data\<close>.
\<close>

record parseResult =
  errors :: "string list"
  metaFields :: "string list option"
  data :: "row list"

text \<open>
  A discovered file: its path relative to the input root, and the parse result, \<open>None\<close>
  when \<^verbatim>\<open>fs.readFile\<close> throws.
\<close>

record csvFile =
  relativePath :: string
  parsed :: "parseResult option"

subsection \<open>Diagnostics and the accumulator\<close>

datatype diagnostic =
    NoCsvFiles
  | ParseWarnings string "string list"
  | HeaderNotParsed string
  | RootLevelFile string
  | RowSkipped nat string
  | DuplicateKey string string string nat string string
  | FileError string
  | NoLanguageData
  | NoKeys
  | NodeOverwritten string string string
  | DeeperPathSkipped string string

text \<open>
  \<open>DuplicateKey fullKey lang file row old new\<close> is the warning of line 136;
  \<open>NodeOverwritten part key value\<close> and \<open>DeeperPathSkipped part key\<close> are the warnings of
  lines 182 and 189.
\<close>

type_synonym flatTable = "(string \<times> string) list"

record aggregate =
  translationsByLang :: "(string \<times> flatTable) list"
  allKeys :: "string list"
  diagnostics :: "diagnostic list"

definition emptyAggregate :: aggregate where
  "emptyAggregate = \<lparr>translationsByLang = [], allKeys = [], diagnostics = []\<rparr>"

definition warn :: "diagnostic \<Rightarrow> aggregate \<Rightarrow> aggregate" where
  "warn d st = st\<lparr>diagnostics := diagnostics st @ [d]\<rparr>"

text \<open>\<^verbatim>\<open>allKeys.add(fullKey)\<close> on a \<^verbatim>\<open>Set\<close>, which keeps insertion order.\<close>

definition setAdd :: "string \<Rightarrow> string list \<Rightarrow> string list" where
  "setAdd k ks = (if k \<in> set ks then ks else ks @ [k])"

text \<open>\<^verbatim>\<open>translationsByLang[lang]\<close>, read as a table.\<close>

definition langTable :: "(string \<times> flatTable) list \<Rightarrow> string \<Rightarrow> flatTable" where
  "langTable t lang = (case map_of t lang of None \<Rightarrow> [] | Some m \<Rightarrow> m)"

subsection \<open>Key derivation and aggregation (\<^verbatim>\<open>convertCsvToTs\<close>, lines 80 to 149)\<close>

definition languageColumns :: "string list \<Rightarrow> string list" where
  "languageColumns fs = filter (\<lambda>field. toLowerCase field \<noteq> ''key'') fs"

definition initLanguage :: "(string \<times> flatTable) list \<Rightarrow> string \<Rightarrow> (string \<times> flatTable) list" where
  "initLanguage t lang = (case map_of t lang of None \<Rightarrow> AList.update lang [] t | Some m \<Rightarrow> t)"

definition baseKeyOf :: "string \<Rightarrow> string" where
  "baseKeyOf relPath =
     joinWith ''.'' (splitOn CHR ''/'' (stripCsvSuffix (replaceBackslashes relPath)))"

definition fullKeyOf :: "string \<Rightarrow> string \<Rightarrow> string" where
  "fullKeyOf baseKey key = (if baseKey \<noteq> [] then baseKey @ ''.'' @ key else key)"

text \<open>
  The body of \<^verbatim>\<open>languageColumns.forEach\<close> (lines 129 to 141) for one language. The table
  of the language exists when the body runs, since line 102 created it.
\<close>

definition writeCell :: "string \<Rightarrow> nat \<Rightarrow> string \<Rightarrow> row \<Rightarrow> aggregate \<Rightarrow> string \<Rightarrow> aggregate" where
  "writeCell file rowIndex fullKey r st lang =
     (case getField r lang of
        Undefined \<Rightarrow> st
      | Null \<Rightarrow> st
      | Str v \<Rightarrow>
          if v = [] then st
          else
            (let m = langTable (translationsByLang st) lang;
                 ws = (case map_of m fullKey of
                         None \<Rightarrow> []
                       | Some old \<Rightarrow>
                           if old \<noteq> [] \<and> old \<noteq> v
                           then [DuplicateKey fullKey lang file (rowIndex + 2) old v]
                           else [])
             in st\<lparr>translationsByLang :=
                      AList.update lang (AList.update fullKey v m) (translationsByLang st),
                    diagnostics := diagnostics st @ ws\<rparr>))"

text \<open>The body of \<^verbatim>\<open>parsed.data.forEach\<close> (lines 119 to 144).\<close>

definition processRow :: "string \<Rightarrow> string \<Rightarrow> string list \<Rightarrow> aggregate \<Rightarrow> nat \<times> row \<Rightarrow> aggregate" where
  "processRow file baseKey langs st ir =
     (case ir of (rowIndex, r) \<Rightarrow>
        (case getField r ''key'' of
           Str key \<Rightarrow>
             if key = [] \<or> trim key = [] then warn (RowSkipped (rowIndex + 2) file) st
             else
               (let fullKey = fullKeyOf baseKey key;
                    st' = foldl (writeCell file rowIndex fullKey r) st langs
                in st'\<lparr>allKeys := setAdd fullKey (allKeys st')\<rparr>)
         | _ \<Rightarrow> warn (RowSkipped (rowIndex + 2) file) st))"

text \<open>The body of the loop over \<^verbatim>\<open>csvFiles\<close> (lines 80 to 149).\<close>

definition processFile :: "aggregate \<Rightarrow> csvFile \<Rightarrow> aggregate" where
  "processFile st f =
     (case parsed f of
        None \<Rightarrow> warn (FileError (relativePath f)) st
      | Some p \<Rightarrow>
          (let st1 = (if errors p \<noteq> [] then warn (ParseWarnings (relativePath f) (errors p)) st
                      else st)
           in case metaFields p of
                None \<Rightarrow> warn (HeaderNotParsed (relativePath f)) st1
              | Some fs \<Rightarrow>
                  (let langs = languageColumns fs;
                       st2 = st1\<lparr>translationsByLang :=
                                  foldl initLanguage (translationsByLang st1) langs\<rparr>;
                       baseKey = baseKeyOf (relativePath f);
                       st3 = (if baseKey = [] \<and> data p \<noteq> []
                              then warn (RootLevelFile (relativePath f)) st2 else st2)
                   in foldl (processRow (relativePath f) baseKey langs) st3
                        (enumerate 0 (data p)))))"

definition aggregateFiles :: "csvFile list \<Rightarrow> aggregate" where
  "aggregateFiles files = foldl processFile emptyAggregate files"

subsection \<open>The tree builder (\<^verbatim>\<open>nestObject\<close>)\<close>

datatype tree = Leaf string | Node "(string \<times> tree) list"

text \<open>
  The inner loop of \<^verbatim>\<open>nestObject\<close> for one key, from the object \<open>current\<close> on: the new
  content of that object and the warnings. Objects are mutated in place in the source, so
  a key that is abandoned leaves what the loop had built until then. A property of the
  tree is a string or an object, so the test of line 196 (the property exists and is
  neither) has no case here: after line 187 a property that exists is an object.
\<close>

fun insertParts ::
  "string \<Rightarrow> string \<Rightarrow> string list \<Rightarrow> (string \<times> tree) list
    \<Rightarrow> (string \<times> tree) list \<times> diagnostic list" where
  "insertParts key v [] current = (current, [])"
| "insertParts key v [part] current =
     (AList.update part (Leaf v) current,
      (case map_of current part of
         Some (Node children) \<Rightarrow> [NodeOverwritten part key v]
       | _ \<Rightarrow> []))"
| "insertParts key v (part # rest) current =
     (case map_of current part of
        Some (Leaf s) \<Rightarrow> (current, [DeeperPathSkipped part key])
      | None \<Rightarrow>
          (case insertParts key v rest [] of
             (sub, ws) \<Rightarrow> (AList.update part (Node sub) current, ws))
      | Some (Node children) \<Rightarrow>
          (case insertParts key v rest children of
             (sub, ws) \<Rightarrow> (AList.update part (Node sub) current, ws)))"

definition insertKey ::
  "(string \<times> tree) list \<times> diagnostic list \<Rightarrow> string \<times> string
    \<Rightarrow> (string \<times> tree) list \<times> diagnostic list" where
  "insertKey acc kv =
     (case acc of (nested, ws) \<Rightarrow>
        (case kv of (key, v) \<Rightarrow>
           (case insertParts key v (splitOn CHR ''.'' key) nested of
              (nested', ws') \<Rightarrow> (nested', ws @ ws'))))"

definition nestObject :: "flatTable \<Rightarrow> (string \<times> tree) list \<times> diagnostic list" where
  "nestObject flatObject = foldl insertKey ([], []) flatObject"

subsection \<open>The emitters\<close>

datatype format = TypeScript | I18next

datatype content = FlatModule flatTable | NestedJson "(string \<times> tree) list"

type_synonym written = "string \<times> content"

text \<open>
  Lines 238 to 242: the keys of the table, sorted by \<^verbatim>\<open>Array.prototype.sort\<close> (code unit
  order), copied one by one into a fresh object.
\<close>

definition sortedCopy :: "flatTable \<Rightarrow> flatTable" where
  "sortedCopy flat =
     foldl (\<lambda>obj key. case map_of flat key of
                         None \<Rightarrow> obj
                       | Some v \<Rightarrow> AList.update key v obj)
       [] (sort (map fst flat))"

definition keyObject :: "string list \<Rightarrow> flatTable" where
  "keyObject keys = foldl (\<lambda>obj key. AList.update key key obj) [] (sort keys)"

definition generateTypeScriptFiles ::
  "string list \<Rightarrow> (string \<times> flatTable) list \<Rightarrow> string list
    \<Rightarrow> diagnostic list \<times> written list" where
  "generateTypeScriptFiles languages t keys =
     (let keyFile = (if keys \<noteq> [] then ([], [(''key.ts'', FlatModule (keyObject keys))])
                     else ([NoKeys], []))
      in (fst keyFile,
          snd keyFile
            @ map (\<lambda>lang. (lang @ ''.ts'', FlatModule (sortedCopy (langTable t lang))))
                languages))"

definition generateI18nextFiles ::
  "string list \<Rightarrow> (string \<times> flatTable) list \<Rightarrow> diagnostic list \<times> written list" where
  "generateI18nextFiles languages t =
     (concat (map (\<lambda>lang. snd (nestObject (langTable t lang))) languages),
      map (\<lambda>lang. (lang @ ''.json'', NestedJson (fst (nestObject (langTable t lang)))))
        languages)"

text \<open>
  \<^verbatim>\<open>convertCsvToTs\<close> after the two directory checks: the diagnostics of the run and the
  files it writes, in order.
\<close>

definition convertCsvToTs :: "format \<Rightarrow> csvFile list \<Rightarrow> diagnostic list \<times> written list" where
  "convertCsvToTs fmt csvFiles =
     (if csvFiles = [] then ([NoCsvFiles], [])
      else
        (let st = aggregateFiles csvFiles;
             languages = map fst (translationsByLang st)
         in if languages = [] then (diagnostics st @ [NoLanguageData], [])
            else
              (case fmt of
                 TypeScript \<Rightarrow>
                   (case generateTypeScriptFiles languages (translationsByLang st) (allKeys st) of
                      (ds, out) \<Rightarrow> (diagnostics st @ ds, out))
               | I18next \<Rightarrow>
                   (case generateI18nextFiles languages (translationsByLang st) of
                      (ds, out) \<Rightarrow> (diagnostics st @ ds, out)))))"

subsection \<open>Observations on the accumulator\<close>

text \<open>
  The definitions of this part are not functions of the source. They name what the
  statements below observe of a run: the value stored for a language and a key, the
  duplicate warnings about them, and, for the proofs, the values that a row and a file
  write to one language and key, in order.
\<close>

definition valueAt :: "aggregate \<Rightarrow> string \<Rightarrow> string \<Rightarrow> string option" where
  "valueAt st lang fullKey = map_of (langTable (translationsByLang st) lang) fullKey"

fun isDuplicateFor :: "string \<Rightarrow> string \<Rightarrow> diagnostic \<Rightarrow> bool" where
  "isDuplicateFor lang fullKey (DuplicateKey k l file r old new) = (k = fullKey \<and> l = lang)"
| "isDuplicateFor lang fullKey d = False"

definition duplicatesFor :: "string \<Rightarrow> string \<Rightarrow> aggregate \<Rightarrow> diagnostic list" where
  "duplicatesFor lang fullKey st = filter (isDuplicateFor lang fullKey) (diagnostics st)"

definition cellValue :: "row \<Rightarrow> string \<Rightarrow> string option" where
  "cellValue r lang = (case getField r lang of Str v \<Rightarrow> if v = [] then None else Some v | _ \<Rightarrow> None)"

definition conflictOf :: "string \<Rightarrow> string \<Rightarrow> string \<Rightarrow> nat \<Rightarrow> string option \<Rightarrow> string \<Rightarrow> diagnostic list" where
  "conflictOf lang fullKey file rowIndex old v =
     (case old of None \<Rightarrow> [] | Some ov \<Rightarrow>
        if ov \<noteq> [] \<and> ov \<noteq> v then [DuplicateKey fullKey lang file (rowIndex + 2) ov v] else [])"

definition rowKey :: "row \<Rightarrow> string option" where
  "rowKey r = (case getField r ''key'' of
                 Str key \<Rightarrow> if key = [] \<or> trim key = [] then None else Some key
               | _ \<Rightarrow> None)"

definition rowWrite :: "string \<Rightarrow> string list \<Rightarrow> string \<Rightarrow> string \<Rightarrow> row \<Rightarrow> string option" where
  "rowWrite baseKey langs l k r =
     (case rowKey r of
        None \<Rightarrow> None
      | Some key \<Rightarrow> if l \<in> set langs \<and> k = fullKeyOf baseKey key then cellValue r l else None)"

fun writesOf :: "string \<Rightarrow> string list \<Rightarrow> string \<Rightarrow> string \<Rightarrow> (nat \<times> row) list \<Rightarrow> (nat \<times> string) list" where
  "writesOf baseKey langs l k [] = []"
| "writesOf baseKey langs l k ((i, r) # irs) =
     (case rowWrite baseKey langs l k r of
        None \<Rightarrow> writesOf baseKey langs l k irs
      | Some v \<Rightarrow> (i, v) # writesOf baseKey langs l k irs)"

fun conflicts :: "string \<Rightarrow> string \<Rightarrow> string \<Rightarrow> string option \<Rightarrow> (nat \<times> string) list \<Rightarrow> diagnostic list" where
  "conflicts l k file old [] = []"
| "conflicts l k file old ((i, v) # ws) = conflictOf l k file i old v @ conflicts l k file (Some v) ws"

definition lastValue :: "string option \<Rightarrow> (nat \<times> string) list \<Rightarrow> string option" where
  "lastValue old ws = (if ws = [] then old else Some (snd (last ws)))"

definition fileWrites :: "string \<Rightarrow> string \<Rightarrow> csvFile \<Rightarrow> (nat \<times> string) list" where
  "fileWrites l k f =
     (case parsed f of
        None \<Rightarrow> []
      | Some p \<Rightarrow>
          (case metaFields p of
             None \<Rightarrow> []
           | Some fs \<Rightarrow>
               writesOf (baseKeyOf (relativePath f)) (languageColumns fs) l k
                 (enumerate 0 (data p))))"

text \<open>
  The base namespace and the fully qualified key in the words of the specification
  (section 4.3): separators normalised to a slash, a trailing \<^verbatim>\<open>.csv\<close> stripped without
  regard to case, every slash replaced by a dot; the key is prefixed by the namespace and
  a dot unless the namespace is empty. They are compared with \<open>baseKeyOf\<close> and \<open>fullKeyOf\<close>.
\<close>

definition specNamespace :: "string \<Rightarrow> string" where
  "specNamespace relPath =
     (let normalized = map (\<lambda>c. if c = CHR 0x5C then CHR ''/'' else c) relPath;
          n = length normalized;
          stem = (if 4 \<le> n \<and> toLowerCase (drop (n - 4) normalized) = ''.csv''
                  then take (n - 4) normalized else normalized)
      in map (\<lambda>c. if c = CHR ''/'' then CHR ''.'' else c) stem)"

definition specFullKey :: "string \<Rightarrow> string \<Rightarrow> string" where
  "specFullKey relPath key =
     (if specNamespace relPath = [] then key else specNamespace relPath @ ''.'' @ key)"



definition fileKeys :: "csvFile \<Rightarrow> string set" where
  "fileKeys f =
     (case parsed f of
        None \<Rightarrow> {}
      | Some p \<Rightarrow>
          (case metaFields p of
             None \<Rightarrow> {}
           | Some fs \<Rightarrow>
               {fullKeyOf (baseKeyOf (relativePath f)) key | key r.
                  r \<in> set (data p) \<and> rowKey r = Some key}))"

text \<open>
  Flattening a nested object, as the specification words the round trip: every string
  value with the path of property names that leads to it, the path joined with dots.
\<close>

fun leaves :: "tree \<Rightarrow> (string list \<times> string) list" where
  "leaves (Leaf v) = [([], v)]"
| "leaves (Node children) =
     concat (map (\<lambda>child. map (\<lambda>pv. (fst child # fst pv, snd pv)) (leaves (snd child))) children)"


text \<open>An object has every property name once; the tables of a run keep that invariant.\<close>

definition tablesDistinct :: "(string \<times> flatTable) list \<Rightarrow> bool" where
  "tablesDistinct t \<longleftrightarrow>
     distinct (map fst t) \<and> (\<forall>l m. (l, m) \<in> set t \<longrightarrow> distinct (map fst m))"

text \<open>\<^verbatim>\<open>Object.keys(translationsByLang)\<close> (line 152).\<close>

definition languages :: "aggregate \<Rightarrow> string list" where
  "languages st = map fst (translationsByLang st)"

text \<open>
  What a nested object holds at a path of property names: the object itself at the empty
  path, a string or an inner object further down, nothing where the path leaves the tree.
\<close>

fun nodeAt :: "(string \<times> tree) list \<Rightarrow> string list \<Rightarrow> tree option" where
  "nodeAt current [] = Some (Node current)"
| "nodeAt current (part # rest) =
     (case map_of current part of
        None \<Rightarrow> None
      | Some (Leaf s) \<Rightarrow> if rest = [] then Some (Leaf s) else None
      | Some (Node children) \<Rightarrow> nodeAt children rest)"

subsection \<open>Example inputs\<close>




definition loginParse :: parseResult where
  "loginParse = \<lparr>errors = [], metaFields = Some [''key'', ''en''],
                  data = [[(''key'', Str ''submit''), (''en'', Str ''Submit'')]]\<rparr>"

definition loginFile :: csvFile where
  "loginFile = \<lparr>relativePath = ''auth/login.csv'', parsed = Some loginParse\<rparr>"

definition greetingParse :: parseResult where
  "greetingParse =
     \<lparr>errors = [], metaFields = Some [''key'', ''en'', ''ja''],
      data = [[(''key'', Str ''greeting''), (''en'', Str []), (''ja'', Str ''Konnichiwa'')],
              [(''key'', Str ''bye''), (''en'', Str ''Bye''), (''ja'', Str [])],
              [(''key'', Str ''later''), (''en'', Str []), (''ja'', Str [])]]\<rparr>"

definition greetingFile :: csvFile where
  "greetingFile = \<lparr>relativePath = ''common.csv'', parsed = Some greetingParse\<rparr>"





definition capitalKeyFile :: csvFile where
  "capitalKeyFile =
     \<lparr>relativePath = ''common.csv'',
      parsed = Some \<lparr>errors = [], metaFields = Some [''Key'', ''en''],
                     data = [[(''Key'', Str ''greeting''), (''en'', Str ''Hello'')]]\<rparr>\<rparr>"

definition lowerKeyFile :: csvFile where
  "lowerKeyFile =
     \<lparr>relativePath = ''common.csv'',
      parsed = Some \<lparr>errors = [], metaFields = Some [''key'', ''en''],
                     data = [[(''key'', Str ''greeting''), (''en'', Str ''Hello'')]]\<rparr>\<rparr>"

definition unsortedFile :: csvFile where
  "unsortedFile =
     \<lparr>relativePath = ''common.csv'',
      parsed = Some \<lparr>errors = [], metaFields = Some [''key'', ''en''],
                     data = [[(''key'', Str ''zebra''), (''en'', Str ''Z'')],
                             [(''key'', Str ''apple''), (''en'', Str ''A'')]]\<rparr>\<rparr>"

definition zebraFile :: csvFile where
  "zebraFile =
     \<lparr>relativePath = ''zebra.csv'',
      parsed = Some \<lparr>errors = [], metaFields = Some [''key'', ''en''],
                     data = [[(''key'', Str ''word''), (''en'', Str ''Z'')]]\<rparr>\<rparr>"

definition appleFile :: csvFile where
  "appleFile =
     \<lparr>relativePath = ''apple.csv'',
      parsed = Some \<lparr>errors = [], metaFields = Some [''key'', ''en''],
                     data = [[(''key'', Str ''word''), (''en'', Str ''A'')]]\<rparr>\<rparr>"

section \<open>Aggregation\<close>

lemma langTable_update:
  "langTable (AList.update lang m t) l = (if l = lang then m else langTable t l)"
  by (simp add: langTable_def update_conv')

lemma writeCell_alt:
  "writeCell file i fk r st lang =
     (case cellValue r lang of
        None \<Rightarrow> st
      | Some v \<Rightarrow>
          st\<lparr>translationsByLang :=
                AList.update lang (AList.update fk v (langTable (translationsByLang st) lang))
                  (translationsByLang st),
              diagnostics := diagnostics st @ conflictOf lang fk file i (valueAt st lang fk) v\<rparr>)"
  by (simp add: writeCell_def cellValue_def conflictOf_def valueAt_def Let_def
      split: cell.splits option.splits)

lemma writeCell_allKeys: "allKeys (writeCell file i fk r st lang) = allKeys st"
  by (simp add: writeCell_alt split: option.splits)

lemma writeCell_valueAt:
  "valueAt (writeCell file i fk r st lang) l k =
     (if l = lang \<and> k = fk \<and> cellValue r lang \<noteq> None then cellValue r lang else valueAt st l k)"
  by (auto simp add: writeCell_alt valueAt_def langTable_update update_conv' split: option.splits)

lemma isDuplicateFor_conflictOf:
  "filter (isDuplicateFor l k) (conflictOf lang fk file i old v) =
     (if l = lang \<and> k = fk then conflictOf lang fk file i old v else [])"
  by (auto simp add: conflictOf_def split: option.splits)

lemma writeCell_duplicatesFor:
  "duplicatesFor l k (writeCell file i fk r st lang) =
     duplicatesFor l k st @
       (if l = lang \<and> k = fk
        then (case cellValue r lang of None \<Rightarrow> [] | Some v \<Rightarrow> conflictOf l k file i (valueAt st l k) v)
        else [])"
  by (auto simp add: writeCell_alt duplicatesFor_def isDuplicateFor_conflictOf split: option.splits)

lemma writeCell_languages:
  "set (map fst (translationsByLang st)) \<subseteq> set (map fst (translationsByLang (writeCell file i fk r st lang)))"
  by (auto simp add: writeCell_alt dom_update split: option.splits)

lemma foldl_writeCell_allKeys:
  "allKeys (foldl (writeCell file i fk r) st langs) = allKeys st"
  by (induction langs rule: rev_induct) (simp_all add: writeCell_allKeys)

lemma foldl_writeCell_valueAt:
  "valueAt (foldl (writeCell file i fk r) st langs) l k =
     (if l \<in> set langs \<and> k = fk \<and> cellValue r l \<noteq> None then cellValue r l else valueAt st l k)"
  by (induction langs rule: rev_induct) (auto simp add: writeCell_valueAt)

lemma conflictOf_same: "conflictOf l k file i (Some v) v = []"
  by (simp add: conflictOf_def)

lemma foldl_writeCell_duplicatesFor:
  "duplicatesFor l k (foldl (writeCell file i fk r) st langs) =
     duplicatesFor l k st @
       (if l \<in> set langs \<and> k = fk
        then (case cellValue r l of None \<Rightarrow> [] | Some v \<Rightarrow> conflictOf l k file i (valueAt st l k) v)
        else [])"
proof (induction langs rule: rev_induct)
  case Nil
  then show ?case by simp
next
  case (snoc x xs)
  show ?case
    by (cases "cellValue r l")
      (auto simp add: snoc writeCell_duplicatesFor foldl_writeCell_valueAt conflictOf_same)
qed

lemma foldl_writeCell_languages:
  "set (map fst (translationsByLang st)) \<subseteq> set (map fst (translationsByLang (foldl (writeCell file i fk r) st langs)))"
proof (induction langs rule: rev_induct)
  case Nil
  then show ?case by simp
next
  case (snoc x xs)
  then show ?case using writeCell_languages by (simp del: set_map) blast
qed

lemma processRow_alt:
  "processRow file baseKey langs st (i, r) =
     (case rowKey r of
        None \<Rightarrow> warn (RowSkipped (i + 2) file) st
      | Some key \<Rightarrow>
          (foldl (writeCell file i (fullKeyOf baseKey key) r) st langs)
            \<lparr>allKeys := setAdd (fullKeyOf baseKey key)
               (allKeys (foldl (writeCell file i (fullKeyOf baseKey key) r) st langs))\<rparr>)"
  by (simp add: processRow_def rowKey_def Let_def split: cell.splits)

lemma valueAt_warn [simp]: "valueAt (warn d st) l k = valueAt st l k"
  by (simp add: valueAt_def warn_def)

lemma valueAt_allKeys_update [simp]: "valueAt (st\<lparr>allKeys := ks\<rparr>) l k = valueAt st l k"
  by (simp add: valueAt_def)

lemma duplicatesFor_allKeys_update [simp]:
  "duplicatesFor l k (st\<lparr>allKeys := ks\<rparr>) = duplicatesFor l k st"
  by (simp add: duplicatesFor_def)

lemma duplicatesFor_warn:
  "duplicatesFor l k (warn d st) = duplicatesFor l k st @ filter (isDuplicateFor l k) [d]"
  by (simp add: duplicatesFor_def warn_def)

lemma processRow_valueAt:
  "valueAt (processRow file baseKey langs st (i, r)) l k =
     (case rowWrite baseKey langs l k r of None \<Rightarrow> valueAt st l k | Some v \<Rightarrow> Some v)"
  by (auto simp add: processRow_alt rowWrite_def foldl_writeCell_valueAt split: option.splits)

lemma processRow_duplicatesFor:
  "duplicatesFor l k (processRow file baseKey langs st (i, r)) =
     duplicatesFor l k st @
       (case rowWrite baseKey langs l k r of
          None \<Rightarrow> []
        | Some v \<Rightarrow> conflictOf l k file i (valueAt st l k) v)"
  by (auto simp add: processRow_alt rowWrite_def foldl_writeCell_duplicatesFor duplicatesFor_warn
      split: option.splits)

lemma lastValue_Nil [simp]: "lastValue old [] = old"
  by (simp add: lastValue_def)

lemma lastValue_Cons [simp]: "lastValue old ((i, v) # ws) = lastValue (Some v) ws"
  by (simp add: lastValue_def)

lemma foldl_processRow_slice:
  "valueAt (foldl (processRow file baseKey langs) st irs) l k =
     lastValue (valueAt st l k) (writesOf baseKey langs l k irs)
   \<and> duplicatesFor l k (foldl (processRow file baseKey langs) st irs) =
     duplicatesFor l k st @ conflicts l k file (valueAt st l k) (writesOf baseKey langs l k irs)"
proof (induction irs arbitrary: st)
  case Nil
  show ?case by simp
next
  case (Cons ir irs)
  obtain i r where ir: "ir = (i, r)" by (cases ir)
  show ?case
    by (cases "rowWrite baseKey langs l k r")
      (simp_all add: ir Cons processRow_valueAt processRow_duplicatesFor)
qed

lemma initLanguage_langTable: "langTable (initLanguage t lang) l = langTable t l"
  by (auto simp add: initLanguage_def langTable_def update_conv' split: option.splits)

lemma foldl_initLanguage_langTable: "langTable (foldl initLanguage t langs) l = langTable t l"
  by (induction langs rule: rev_induct) (simp_all add: initLanguage_langTable)

lemma valueAt_init [simp]:
  "valueAt (st\<lparr>translationsByLang := foldl initLanguage (translationsByLang st) langs\<rparr>) l k
     = valueAt st l k"
  by (simp add: valueAt_def foldl_initLanguage_langTable)

lemma duplicatesFor_init [simp]:
  "duplicatesFor l k (st\<lparr>translationsByLang := t\<rparr>) = duplicatesFor l k st"
  by (simp add: duplicatesFor_def)

lemma duplicatesFor_warn_other [simp]:
  "\<not> isDuplicateFor l k d \<Longrightarrow> duplicatesFor l k (warn d st) = duplicatesFor l k st"
  by (simp add: duplicatesFor_warn)

lemma processFile_slice:
  "valueAt (processFile st f) l k = lastValue (valueAt st l k) (fileWrites l k f)
   \<and> duplicatesFor l k (processFile st f) =
       duplicatesFor l k st @ conflicts l k (relativePath f) (valueAt st l k) (fileWrites l k f)"
  by (simp add: processFile_def fileWrites_def Let_def foldl_processRow_slice
      split: option.splits)









lemma valueAt_empty [simp]: "valueAt emptyAggregate l k = None"
  by (simp add: valueAt_def emptyAggregate_def langTable_def)

lemma duplicatesFor_empty [simp]: "duplicatesFor l k emptyAggregate = []"
  by (simp add: duplicatesFor_def emptyAggregate_def)





section \<open>Key derivation\<close>

lemma splitOn_nonempty [simp]: "splitOn c s \<noteq> []"
  by (induction s) (auto split: list.splits)

lemma joinWith_Cons:
  "ps \<noteq> [] \<Longrightarrow> joinWith sep (p # ps) = p @ sep @ joinWith sep ps"
  by (cases ps) simp_all

lemma join_split_replace:
  "joinWith [d] (splitOn c s) = map (\<lambda>x. if x = c then d else x) s"
proof (induction s)
  case Nil
  show ?case by simp
next
  case (Cons x xs)
  show ?case
  proof (cases "x = c")
    case True
    then show ?thesis using Cons by (simp add: joinWith_Cons)
  next
    case False
    obtain p ps where sp: "splitOn c xs = p # ps"
      using splitOn_nonempty [of c xs] by (cases "splitOn c xs") auto
    have "joinWith [d] ((x # p) # ps) = x # joinWith [d] (p # ps)"
      by (cases ps) simp_all
    with False sp Cons show ?thesis by simp
  qed
qed

lemma lowerChar_eq_iff:
  assumes "97 \<le> (of_char t :: nat)" "(of_char t :: nat) \<le> 122"
  shows "lowerChar c = t \<longleftrightarrow> (c = t \<or> (of_char c :: nat) = of_char t - 32)"
proof -
  let ?n = "of_char c :: nat"
  let ?m = "of_char t :: nat"
  show ?thesis
  proof
    assume h: "lowerChar c = t"
    show "c = t \<or> ?n = ?m - 32"
    proof (cases "(65 \<le> ?n \<and> ?n \<le> 90) \<or> (192 \<le> ?n \<and> ?n \<le> 222 \<and> ?n \<noteq> 215)")
      case True
      with h have "char_of (?n + 32) = t" by (simp add: lowerChar_def Let_def)
      then have "(of_char (char_of (?n + 32) :: char) :: nat) = ?m" by simp
      then have "(?n + 32) mod 256 = ?m" by simp
      moreover have "?n + 32 < 256" using True by arith
      ultimately have "?n + 32 = ?m" by simp
      then have "?n = ?m - 32" by arith
      then show ?thesis by simp
    next
      case False
      with h show ?thesis by (simp add: lowerChar_def Let_def)
    qed
  next
    assume h: "c = t \<or> ?n = ?m - 32"
    then show "lowerChar c = t"
    proof
      assume "c = t"
      with assms show ?thesis by (simp add: lowerChar_def Let_def)
    next
      assume n': "?n = ?m - 32"
      with assms have r: "65 \<le> ?n \<and> ?n \<le> 90" by arith
      then have "lowerChar c = char_of (?n + 32)" by (simp add: lowerChar_def Let_def)
      also have "?n + 32 = ?m" using n' assms by arith
      finally show ?thesis by simp
    qed
  qed
qed

lemma of_char_eq_iff: "(of_char x :: nat) = of_char y \<longleftrightarrow> x = y"
  by (metis char_of_char)

lemma lower_c: "lowerChar x = CHR ''c'' \<longleftrightarrow> (x = CHR ''c'' \<or> x = CHR ''C'')"
  using lowerChar_eq_iff [of "CHR ''c''" x] of_char_eq_iff [of x "CHR ''C''"] by simp

lemma lower_s: "lowerChar x = CHR ''s'' \<longleftrightarrow> (x = CHR ''s'' \<or> x = CHR ''S'')"
  using lowerChar_eq_iff [of "CHR ''s''" x] of_char_eq_iff [of x "CHR ''S''"] by simp

lemma lower_v: "lowerChar x = CHR ''v'' \<longleftrightarrow> (x = CHR ''v'' \<or> x = CHR ''V'')"
  using lowerChar_eq_iff [of "CHR ''v''" x] of_char_eq_iff [of x "CHR ''V''"] by simp

lemma lower_dot: "lowerChar x = CHR ''.'' \<longleftrightarrow> x = CHR ''.''"
proof
  assume h: "lowerChar x = CHR ''.''"
  show "x = CHR ''.''"
  proof (cases "(65 \<le> (of_char x :: nat) \<and> (of_char x :: nat) \<le> 90)
       \<or> (192 \<le> (of_char x :: nat) \<and> (of_char x :: nat) \<le> 222 \<and> (of_char x :: nat) \<noteq> 215)")
    case True
    with h have "char_of ((of_char x :: nat) + 32) = CHR ''.''" by (simp add: lowerChar_def Let_def)
    then have "(of_char (char_of ((of_char x :: nat) + 32) :: char) :: nat) = of_char CHR ''.''" by simp
    then have "((of_char x :: nat) + 32) mod 256 = 46" by simp
    with True show ?thesis by (auto simp add: mod_if split: if_splits)
  next
    case False
    with h show ?thesis by (simp add: lowerChar_def Let_def)
  qed
next
  assume "x = CHR ''.''"
  then show "lowerChar x = CHR ''.''" by (simp add: lowerChar_def)
qed

lemma matchesDotCsv_iff: "matchesDotCsv t \<longleftrightarrow> toLowerCase t = ''.csv''"
  by (auto simp add: matchesDotCsv_def toLowerCase_def lower_c lower_s lower_v lower_dot
      split: list.splits)

lemma baseKeyOf_spec: "baseKeyOf relPath = specNamespace relPath"
  by (simp add: baseKeyOf_def specNamespace_def stripCsvSuffix_def replaceBackslashes_def
      matchesDotCsv_iff join_split_replace Let_def)

lemma fullKeyOf_spec: "fullKeyOf (baseKeyOf relPath) key = specFullKey relPath key"
  by (simp add: fullKeyOf_def specFullKey_def baseKeyOf_spec)

lemma set_setAdd [simp]: "set (setAdd k ks) = insert k (set ks)"
  by (auto simp add: setAdd_def)

lemma trim_Nil [simp]: "trim [] = []"
  by (simp add: trim_def)

lemma rowKey_Some_iff:
  "rowKey r = Some key \<longleftrightarrow> getField r ''key'' = Str key \<and> trim key \<noteq> []"
  by (auto simp add: rowKey_def split: cell.splits)

lemma allKeys_warn [simp]: "allKeys (warn d st) = allKeys st"
  by (simp add: warn_def)

lemma processRow_allKeys:
  "set (allKeys (processRow file baseKey langs st (i, r))) =
     set (allKeys st) \<union> (case rowKey r of None \<Rightarrow> {} | Some key \<Rightarrow> {fullKeyOf baseKey key})"
  by (simp add: processRow_alt foldl_writeCell_allKeys split: option.splits)

lemma foldl_processRow_allKeys:
  "set (allKeys (foldl (processRow file baseKey langs) st irs)) =
     set (allKeys st) \<union> {fullKeyOf baseKey key | key r. r \<in> snd ` set irs \<and> rowKey r = Some key}"
proof (induction irs arbitrary: st)
  case Nil
  show ?case by simp
next
  case (Cons ir irs)
  obtain i r where ir: "ir = (i, r)" by (cases ir)
  show ?case
    by (cases "rowKey r") (auto simp add: ir Cons processRow_allKeys)
qed

lemma snd_set_enumerate [simp]: "snd ` set (enumerate n xs) = set xs"
  by (metis list.set_map map_snd_enumerate)

lemma processFile_allKeys:
  assumes "parsed f = Some p" and "metaFields p = Some fs"
  shows "set (allKeys (processFile st f)) =
           set (allKeys st) \<union>
             {fullKeyOf (baseKeyOf (relativePath f)) key | key r.
                r \<in> set (data p) \<and> rowKey r = Some key}"
  using assms by (simp add: processFile_def Let_def foldl_processRow_allKeys)

text \<open>
  Claim C2. For a file whose header was parsed, the base namespace computed by the code is
  the one the specification describes, and the keys the file adds to the key set are
  exactly the fully qualified keys of its surviving rows: the namespace, a dot and the
  key cell, or the key cell alone when the namespace is empty. A row \<^verbatim>\<open>key=submit\<close> of
  \<^verbatim>\<open>auth/login.csv\<close> gets the key \<^verbatim>\<open>auth.login.submit\<close>.
\<close>

theorem fully_qualified_keys:
  assumes "parsed f = Some p" and "metaFields p = Some fs"
  shows "baseKeyOf (relativePath f) = specNamespace (relativePath f)
     \<and> set (allKeys (processFile st f)) =
         set (allKeys st) \<union>
           {specFullKey (relativePath f) key | key r.
              r \<in> set (data p) \<and> getField r ''key'' = Str key \<and> trim key \<noteq> []}
     \<and> fullKeyOf (baseKeyOf ''auth/login.csv'') ''submit'' = ''auth.login.submit''"
proof -
  have ex: "fullKeyOf (baseKeyOf ''auth/login.csv'') ''submit'' = ''auth.login.submit''"
    by code_simp
  have keys: "set (allKeys (processFile st f)) =
         set (allKeys st) \<union>
           {specFullKey (relativePath f) key | key r.
              r \<in> set (data p) \<and> getField r ''key'' = Str key \<and> trim key \<noteq> []}"
    using processFile_allKeys [OF assms, of st] by (simp add: fullKeyOf_spec rowKey_Some_iff)
  show ?thesis
    using keys ex baseKeyOf_spec [of "relativePath f"] by blast
qed

theorem fully_qualified_keys_witness:
  "parsed loginFile = Some loginParse \<and> metaFields loginParse = Some [''key'', ''en'']
   \<and> set (allKeys (processFile emptyAggregate loginFile)) =
       set (allKeys emptyAggregate) \<union>
         {specFullKey (relativePath loginFile) key | key r.
            r \<in> set (data loginParse) \<and> getField r ''key'' = Str key \<and> trim key \<noteq> []}
   \<and> allKeys (processFile emptyAggregate loginFile) = [''auth.login.submit'']"
proof -
  have h1: "parsed loginFile = Some loginParse" by (simp add: loginFile_def)
  have h2: "metaFields loginParse = Some [''key'', ''en'']" by (simp add: loginParse_def)
  have c: "allKeys (processFile emptyAggregate loginFile) = [''auth.login.submit'']"
    by code_simp
  show ?thesis
    using fully_qualified_keys [OF h1 h2, of emptyAggregate] h1 h2 c by simp
qed

section \<open>Values, keys and what the emitters write\<close>



lemma writesOf_set:
  "(\<exists>i. (i, v) \<in> set (writesOf b langs l k irs)) \<longleftrightarrow>
     (\<exists>r \<in> snd ` set irs. rowWrite b langs l k r = Some v)"
proof (induction irs)
  case Nil
  show ?case by simp
next
  case (Cons ir irs)
  obtain j r where ir: "ir = (j, r)" by (cases ir)
  show ?case using Cons by (cases "rowWrite b langs l k r") (auto simp add: ir)
qed


lemma fileWrites_fileKeys: "(i, v) \<in> set (fileWrites l k f) \<Longrightarrow> k \<in> fileKeys f"
proof -
  assume a: "(i, v) \<in> set (fileWrites l k f)"
  then obtain p fs where p: "parsed f = Some p" and fs: "metaFields p = Some fs"
    by (cases "parsed f"; cases "metaFields (the (parsed f))")
      (auto simp add: fileWrites_def)
  with a have "\<exists>i. (i, v) \<in> set (writesOf (baseKeyOf (relativePath f)) (languageColumns fs) l k
                  (enumerate 0 (data p)))"
    by (auto simp add: fileWrites_def)
  then obtain r where "r \<in> set (data p)"
    and "rowWrite (baseKeyOf (relativePath f)) (languageColumns fs) l k r = Some v"
    by (auto simp add: writesOf_set)
  then show ?thesis
    using p fs by (auto simp add: fileKeys_def rowWrite_def split: option.splits if_splits)
qed

lemma lastValue_Some_mem:
  "lastValue old ws = Some v \<Longrightarrow> old = Some v \<or> (\<exists>i. (i, v) \<in> set ws)"
  by (cases "ws = []") (auto simp add: lastValue_def intro: exI [of _ "fst (last ws)"])

lemma foldl_processFile_valueAt_source:
  "valueAt (foldl processFile st files) l k = Some v \<Longrightarrow>
     valueAt st l k = Some v \<or> (\<exists>f \<in> set files. \<exists>i. (i, v) \<in> set (fileWrites l k f))"
proof (induction files arbitrary: st)
  case Nil
  then show ?case by simp
next
  case (Cons f files)
  from Cons.IH [OF Cons.prems [simplified]]
  show ?case
  proof
    assume "valueAt (processFile st f) l k = Some v"
    then have "lastValue (valueAt st l k) (fileWrites l k f) = Some v"
      by (simp add: processFile_slice)
    from lastValue_Some_mem [OF this] show ?thesis by auto
  next
    assume "\<exists>f \<in> set files. \<exists>i. (i, v) \<in> set (fileWrites l k f)"
    then show ?thesis by auto
  qed
qed


lemma processFile_allKeys_fileKeys:
  "set (allKeys (processFile st f)) = set (allKeys st) \<union> fileKeys f"
proof (cases "parsed f")
  case None
  then show ?thesis by (simp add: processFile_def fileKeys_def)
next
  case (Some p)
  show ?thesis
  proof (cases "metaFields p")
    case None
    with Some show ?thesis by (simp add: processFile_def fileKeys_def Let_def)
  next
    case (Some fs)
    with \<open>parsed f = Some p\<close> processFile_allKeys [of f p fs st]
    show ?thesis by (simp add: fileKeys_def)
  qed
qed

lemma foldl_processFile_allKeys:
  "set (allKeys (foldl processFile st files)) = set (allKeys st) \<union> (\<Union>f \<in> set files. fileKeys f)"
  by (induction files arbitrary: st) (auto simp add: processFile_allKeys_fileKeys)

lemma aggregateFiles_allKeys:
  "set (allKeys (aggregateFiles files)) = (\<Union>f \<in> set files. fileKeys f)"
  by (simp add: aggregateFiles_def foldl_processFile_allKeys emptyAggregate_def)

lemma aggregateFiles_valueAt_allKeys:
  assumes "valueAt (aggregateFiles files) l k = Some v"
  shows "k \<in> set (allKeys (aggregateFiles files))"
proof -
  from foldl_processFile_valueAt_source [of emptyAggregate files l k v] assms
  obtain f i where "f \<in> set files" and "(i, v) \<in> set (fileWrites l k f)"
    by (auto simp add: aggregateFiles_def)
  then show ?thesis
    by (auto simp add: aggregateFiles_allKeys dest: fileWrites_fileKeys)
qed

lemma leaves_Node_Nil [simp]: "leaves (Node []) = []"
  by simp

lemma leaves_Node_Cons [simp]:
  "leaves (Node ((name, t) # children)) =
     map (\<lambda>pv. (name # fst pv, snd pv)) (leaves t) @ leaves (Node children)"
  by simp

lemma leaves_Node_append [simp]:
  "leaves (Node (xs @ ys)) = leaves (Node xs) @ leaves (Node ys)"
  by simp


declare leaves.simps(2) [simp del]









lemma sortedCopy_step:
  "distinct (map fst acc) \<Longrightarrow>
     distinct (map fst (foldl (\<lambda>obj key. case map_of flat key of
                                              None \<Rightarrow> obj
                                            | Some v \<Rightarrow> AList.update key v obj) acc ks))
     \<and> map_of (foldl (\<lambda>obj key. case map_of flat key of
                                    None \<Rightarrow> obj
                                  | Some v \<Rightarrow> AList.update key v obj) acc ks) k
         = (if k \<in> set ks \<and> map_of flat k \<noteq> None then map_of flat k else map_of acc k)"
proof (induction ks rule: rev_induct)
  case Nil
  then show ?case by simp
next
  case (snoc x xs)
  then show ?case
    by (cases "map_of flat x") (auto simp add: distinct_update update_conv')
qed

lemma map_of_sortedCopy: "map_of (sortedCopy flat) = map_of flat"
proof
  fix k
  have "map_of flat k \<noteq> None \<Longrightarrow> k \<in> fst ` set flat"
    by (auto simp add: map_of_eq_None_iff)
  then show "map_of (sortedCopy flat) k = map_of flat k"
    using sortedCopy_step [of "[]" flat "sort (map fst flat)" k]
    by (cases "map_of flat k") (auto simp add: sortedCopy_def)
qed

lemma distinct_sortedCopy: "distinct (map fst (sortedCopy flat))"
  using sortedCopy_step [of "[]" flat "sort (map fst flat)"] by (simp add: sortedCopy_def)

lemma sortedCopy_mem: "(k, v) \<in> set (sortedCopy flat) \<Longrightarrow> map_of flat k = Some v"
  using distinct_sortedCopy [of flat] map_of_sortedCopy [of flat] by (metis map_of_eq_Some_iff)

lemma keyObject_step:
  "distinct (map fst acc) \<Longrightarrow>
     distinct (map fst (foldl (\<lambda>obj key. AList.update key key obj) acc ks))
     \<and> map_of (foldl (\<lambda>obj key. AList.update key key obj) acc ks) k
         = (if k \<in> set ks then Some k else map_of acc k)"
  by (induction ks rule: rev_induct) (auto simp add: distinct_update update_conv')

lemma keyObject_mem: "(k, v) \<in> set (keyObject keys) \<longleftrightarrow> k \<in> set keys \<and> v = k"
proof -
  have d: "distinct (map fst (keyObject keys))"
    and m: "map_of (keyObject keys) k = (if k \<in> set keys then Some k else None)"
    using keyObject_step [of "[]" "sort keys" k] by (simp_all add: keyObject_def)
  from d have "(k, v) \<in> set (keyObject keys) \<longleftrightarrow> map_of (keyObject keys) k = Some v"
    by simp
  with m show ?thesis by auto
qed

lemma aggregateFiles_Nil [simp]: "aggregateFiles [] = emptyAggregate"
  by (simp add: aggregateFiles_def)

lemma convert_TypeScript_written:
  "snd (convertCsvToTs TypeScript files) =
     (if translationsByLang (aggregateFiles files) = [] then []
      else (if allKeys (aggregateFiles files) \<noteq> []
            then [(''key.ts'', FlatModule (keyObject (allKeys (aggregateFiles files))))] else [])
           @ map (\<lambda>lang. (lang @ ''.ts'',
                           FlatModule (sortedCopy (langTable (translationsByLang (aggregateFiles files)) lang))))
               (map fst (translationsByLang (aggregateFiles files))))"
  by (simp add: convertCsvToTs_def generateTypeScriptFiles_def Let_def emptyAggregate_def)


lemma TypeScript_written_cases:
  assumes "(name, FlatModule kv) \<in> set (snd (convertCsvToTs TypeScript files))"
  shows "(name = ''key.ts'' \<and> kv = keyObject (allKeys (aggregateFiles files))
            \<and> allKeys (aggregateFiles files) \<noteq> [])
         \<or> (\<exists>lang. name = lang @ ''.ts''
               \<and> kv = sortedCopy (langTable (translationsByLang (aggregateFiles files)) lang))"
  using assms by (auto simp add: convert_TypeScript_written split: if_splits)


lemma langTable_distinct:
  "tablesDistinct t \<Longrightarrow> distinct (map fst (langTable t l))"
  by (auto simp add: tablesDistinct_def langTable_def dest!: map_of_SomeD split: option.splits)

lemma update_memD: "(a, b) \<in> set (AList.update k v al) \<Longrightarrow> (a = k \<and> b = v) \<or> (a, b) \<in> set al"
  by (induction al) (auto split: if_splits)

lemma tablesDistinct_update:
  "tablesDistinct t \<Longrightarrow> distinct (map fst m) \<Longrightarrow> tablesDistinct (AList.update l m t)"
  unfolding tablesDistinct_def by (auto simp add: distinct_update dest: update_memD)

lemma writeCell_tablesDistinct:
  assumes "tablesDistinct (translationsByLang st)"
  shows "tablesDistinct (translationsByLang (writeCell file i fk r st lang))"
proof (cases "cellValue r lang")
  case None
  with assms show ?thesis by (simp add: writeCell_alt)
next
  case (Some v)
  have "distinct (map fst (AList.update fk v (langTable (translationsByLang st) lang)))"
    using langTable_distinct [OF assms] by (rule distinct_update)
  with assms Some show ?thesis
    by (simp add: writeCell_alt tablesDistinct_update)
qed

lemma foldl_writeCell_tablesDistinct:
  "tablesDistinct (translationsByLang st) \<Longrightarrow>
     tablesDistinct (translationsByLang (foldl (writeCell file i fk r) st langs))"
  by (induction langs rule: rev_induct) (simp_all add: writeCell_tablesDistinct)

lemma translationsByLang_warn [simp]: "translationsByLang (warn d st) = translationsByLang st"
  by (simp add: warn_def)

lemma processRow_tablesDistinct:
  "tablesDistinct (translationsByLang st) \<Longrightarrow>
     tablesDistinct (translationsByLang (processRow file baseKey langs st ir))"
  by (cases ir) (simp add: processRow_alt foldl_writeCell_tablesDistinct split: option.splits)

lemma foldl_processRow_tablesDistinct:
  "tablesDistinct (translationsByLang st) \<Longrightarrow>
     tablesDistinct (translationsByLang (foldl (processRow file baseKey langs) st irs))"
  by (induction irs arbitrary: st) (simp_all add: processRow_tablesDistinct)

lemma initLanguage_tablesDistinct:
  "tablesDistinct t \<Longrightarrow> tablesDistinct (initLanguage t lang)"
  by (cases "map_of t lang") (simp_all add: initLanguage_def tablesDistinct_update)

lemma foldl_initLanguage_tablesDistinct:
  "tablesDistinct t \<Longrightarrow> tablesDistinct (foldl initLanguage t langs)"
  by (induction langs rule: rev_induct) (simp_all add: initLanguage_tablesDistinct)

lemma processFile_tablesDistinct:
  assumes "tablesDistinct (translationsByLang st)"
  shows "tablesDistinct (translationsByLang (processFile st f))"
  using assms
  by (simp add: processFile_def Let_def foldl_initLanguage_tablesDistinct
      foldl_processRow_tablesDistinct split: option.splits)

lemma aggregateFiles_tablesDistinct: "tablesDistinct (translationsByLang (aggregateFiles files))"
proof -
  have step: "tablesDistinct (translationsByLang st) \<Longrightarrow>
          tablesDistinct (translationsByLang (foldl processFile st files))" for st
    by (induction files arbitrary: st) (simp_all add: processFile_tablesDistinct)
  have "tablesDistinct (translationsByLang emptyAggregate)"
    by (simp add: tablesDistinct_def emptyAggregate_def)
  from step [OF this] show ?thesis by (simp add: aggregateFiles_def)
qed




lemma rowKey_fileKeys:
  assumes "parsed f = Some p" "metaFields p = Some fs" "r \<in> set (data p)"
    "getField r ''key'' = Str key" "trim key \<noteq> []"
  shows "fullKeyOf (baseKeyOf (relativePath f)) key \<in> fileKeys f"
  using assms by (auto simp add: fileKeys_def rowKey_Some_iff)

text \<open>
  Claim C4. After the run the key set holds the fully qualified key of every surviving
  row, whatever its language cells hold; every key of a language table is in the key set;
  and in the TypeScript mode every key of a written module is a key of the registry
  module \<^verbatim>\<open>key.ts\<close>, which is then written.
\<close>

theorem registry_superset:
  "(f \<in> set files \<and> parsed f = Some p \<and> metaFields p = Some fs \<and> r \<in> set (data p)
      \<and> getField r ''key'' = Str key \<and> trim key \<noteq> []
      \<longrightarrow> fullKeyOf (baseKeyOf (relativePath f)) key \<in> set (allKeys (aggregateFiles files)))
   \<and> (valueAt (aggregateFiles files) l k = Some v \<longrightarrow> k \<in> set (allKeys (aggregateFiles files)))
   \<and> ((name, FlatModule kv) \<in> set (snd (convertCsvToTs TypeScript files)) \<and> (k1, v1) \<in> set kv
      \<longrightarrow> (''key.ts'', FlatModule (keyObject (allKeys (aggregateFiles files))))
             \<in> set (snd (convertCsvToTs TypeScript files))
          \<and> (k1, k1) \<in> set (keyObject (allKeys (aggregateFiles files))))"
proof (intro conjI impI)
  assume "f \<in> set files \<and> parsed f = Some p \<and> metaFields p = Some fs \<and> r \<in> set (data p)
      \<and> getField r ''key'' = Str key \<and> trim key \<noteq> []"
  then show "fullKeyOf (baseKeyOf (relativePath f)) key \<in> set (allKeys (aggregateFiles files))"
    using rowKey_fileKeys [of f p fs r key] by (auto simp add: aggregateFiles_allKeys)
next
  assume "valueAt (aggregateFiles files) l k = Some v"
  then show "k \<in> set (allKeys (aggregateFiles files))" by (rule aggregateFiles_valueAt_allKeys)
next
  assume a: "(name, FlatModule kv) \<in> set (snd (convertCsvToTs TypeScript files)) \<and> (k1, v1) \<in> set kv"
  then have m: "(name, FlatModule kv) \<in> set (snd (convertCsvToTs TypeScript files))"
    and e: "(k1, v1) \<in> set kv" by simp_all
  from TypeScript_written_cases [OF m]
  have k1: "k1 \<in> set (allKeys (aggregateFiles files))"
  proof
    assume "name = ''key.ts'' \<and> kv = keyObject (allKeys (aggregateFiles files))
            \<and> allKeys (aggregateFiles files) \<noteq> []"
    with e show ?thesis by (simp add: keyObject_mem)
  next
    assume "\<exists>lang. name = lang @ ''.ts''
               \<and> kv = sortedCopy (langTable (translationsByLang (aggregateFiles files)) lang)"
    then obtain lang
      where "kv = sortedCopy (langTable (translationsByLang (aggregateFiles files)) lang)"
      by blast
    with e have "valueAt (aggregateFiles files) lang k1 = Some v1"
      by (auto simp add: valueAt_def dest: sortedCopy_mem)
    then show ?thesis by (rule aggregateFiles_valueAt_allKeys)
  qed
  then have ne: "allKeys (aggregateFiles files) \<noteq> []" by auto
  from a have "translationsByLang (aggregateFiles files) \<noteq> []"
    by (auto simp add: convert_TypeScript_written split: if_splits)
  with ne show "(''key.ts'', FlatModule (keyObject (allKeys (aggregateFiles files))))
             \<in> set (snd (convertCsvToTs TypeScript files))"
    by (simp add: convert_TypeScript_written)
  show "(k1, k1) \<in> set (keyObject (allKeys (aggregateFiles files)))"
    using k1 by (simp add: keyObject_mem)
qed

theorem registry_superset_witness:
  "greetingFile \<in> set [greetingFile] \<and> parsed greetingFile = Some greetingParse
   \<and> metaFields greetingParse = Some [''key'', ''en'', ''ja'']
   \<and> [(''key'', Str ''later''), (''en'', Str []), (''ja'', Str [])] \<in> set (data greetingParse)
   \<and> fullKeyOf (baseKeyOf (relativePath greetingFile)) ''later''
        \<in> set (allKeys (aggregateFiles [greetingFile]))
   \<and> valueAt (aggregateFiles [greetingFile]) ''en'' ''common.bye'' = Some ''Bye''
   \<and> ''common.bye'' \<in> set (allKeys (aggregateFiles [greetingFile]))
   \<and> (''en.ts'', FlatModule [(''common.bye'', ''Bye'')])
        \<in> set (snd (convertCsvToTs TypeScript [greetingFile]))
   \<and> (''key.ts'', FlatModule (keyObject (allKeys (aggregateFiles [greetingFile]))))
        \<in> set (snd (convertCsvToTs TypeScript [greetingFile]))
   \<and> (''common.bye'', ''common.bye'') \<in> set (keyObject (allKeys (aggregateFiles [greetingFile])))
   \<and> allKeys (aggregateFiles [greetingFile]) = [''common.greeting'', ''common.bye'', ''common.later'']"
proof -
  let ?r = "[(''key'', Str ''later''), (''en'', Str []), (''ja'', Str [])]"
  have h1: "greetingFile \<in> set [greetingFile]" by simp
  have h2: "parsed greetingFile = Some greetingParse" by (simp add: greetingFile_def)
  have h3: "metaFields greetingParse = Some [''key'', ''en'', ''ja'']"
    by (simp add: greetingParse_def)
  have h4: "?r \<in> set (data greetingParse)" by (simp add: greetingParse_def)
  have h5: "getField ?r ''key'' = Str ''later''" by code_simp
  have h6: "trim ''later'' \<noteq> []" by code_simp
  have h7: "valueAt (aggregateFiles [greetingFile]) ''en'' ''common.bye'' = Some ''Bye''"
    by code_simp
  have h8: "(''en.ts'', FlatModule [(''common.bye'', ''Bye'')])
        \<in> set (snd (convertCsvToTs TypeScript [greetingFile]))"
    by code_simp
  have h9: "(''common.bye'', ''Bye'') \<in> set [(''common.bye'', ''Bye'')]" by simp
  have h10: "allKeys (aggregateFiles [greetingFile]) =
               [''common.greeting'', ''common.bye'', ''common.later'']"
    by code_simp
  note t = registry_superset
    [of greetingFile "[greetingFile]" greetingParse "[''key'', ''en'', ''ja'']" ?r "''later''"
        "''en''" "''common.bye''" "''Bye''" "''en.ts''" "[(''common.bye'', ''Bye'')]"
        "''common.bye''" "''Bye''"]
  from t h1 h2 h3 h4 h5 h6
  have c1: "fullKeyOf (baseKeyOf (relativePath greetingFile)) ''later''
        \<in> set (allKeys (aggregateFiles [greetingFile]))"
    by blast
  from t h7 have c2: "''common.bye'' \<in> set (allKeys (aggregateFiles [greetingFile]))"
    by blast
  from t h8 h9
  have c3: "(''key.ts'', FlatModule (keyObject (allKeys (aggregateFiles [greetingFile]))))
        \<in> set (snd (convertCsvToTs TypeScript [greetingFile]))
     \<and> (''common.bye'', ''common.bye'') \<in> set (keyObject (allKeys (aggregateFiles [greetingFile])))"
    by blast
  show ?thesis using h1 h2 h3 h4 h7 h8 h10 c1 c2 c3 by blast
qed

section \<open>Languages and written files\<close>





lemma languages_warn [simp]: "languages (warn d st) = languages st"
  by (simp add: languages_def)

lemma languages_allKeys_update [simp]: "languages (st\<lparr>allKeys := ks\<rparr>) = languages st"
  by (simp add: languages_def)





lemma nestObject_Nil [simp]: "nestObject [] = ([], [])"
  by (simp add: nestObject_def)

lemma sortedCopy_Nil [simp]: "sortedCopy [] = []"
  by (simp add: sortedCopy_def)








text \<open>
  Claim C9 on the input \<^verbatim>\<open>common.csv\<close> with header \<^verbatim>\<open>Key,en\<close> and the row
  \<^verbatim>\<open>greeting,Hello\<close>. The column \<^verbatim>\<open>Key\<close> is left out of the language columns, since the
  filter of line 99 compares in lower case; the key cell is read as \<^verbatim>\<open>row.key\<close> (line 120),
  which this row does not have, so the row is skipped and the file contributes no key. The
  same file with the header \<^verbatim>\<open>key,en\<close> yields \<^verbatim>\<open>common.greeting\<close>.
\<close>

theorem capital_key_header_skips_rows:
  "toLowerCase ''Key'' = ''key''
   \<and> languageColumns [''Key'', ''en''] = [''en'']
   \<and> aggregateFiles [capitalKeyFile] =
       \<lparr>translationsByLang = [(''en'', [])], allKeys = [],
        diagnostics = [RowSkipped 2 ''common.csv'']\<rparr>
   \<and> aggregateFiles [lowerKeyFile] =
       \<lparr>translationsByLang = [(''en'', [(''common.greeting'', ''Hello'')])],
        allKeys = [''common.greeting''], diagnostics = []\<rparr>"
  by code_simp

text \<open>
  Claim C7 on the input \<^verbatim>\<open>common.csv\<close> with the rows \<^verbatim>\<open>zebra,Z\<close> and \<^verbatim>\<open>apple,A\<close>, and on the
  files \<^verbatim>\<open>zebra.csv\<close> and \<^verbatim>\<open>apple.csv\<close> discovered in that order. The i18next emitter
  passes the table to \<^verbatim>\<open>nestObject\<close> in insertion order and writes the tree as built:
  \<^verbatim>\<open>zebra\<close> comes before \<^verbatim>\<open>apple\<close>. The TypeScript emitter sorts the keys of the same
  table.
\<close>

theorem i18next_keys_not_sorted:
  "snd (convertCsvToTs I18next [unsortedFile]) =
     [(''en.json'', NestedJson [(''common'', Node [(''zebra'', Leaf ''Z''), (''apple'', Leaf ''A'')])])]
   \<and> langTable (translationsByLang (aggregateFiles [unsortedFile])) ''en'' =
       [(''common.zebra'', ''Z''), (''common.apple'', ''A'')]
   \<and> snd (convertCsvToTs I18next [zebraFile, appleFile]) =
     [(''en.json'', NestedJson [(''zebra'', Node [(''word'', Leaf ''Z'')]),
                                (''apple'', Node [(''word'', Leaf ''A'')])])]
   \<and> \<not> sorted [''zebra'', ''apple'']
   \<and> snd (convertCsvToTs TypeScript [unsortedFile]) =
     [(''key.ts'', FlatModule [(''common.apple'', ''common.apple''), (''common.zebra'', ''common.zebra'')]),
      (''en.ts'', FlatModule [(''common.apple'', ''A''), (''common.zebra'', ''Z'')])]"
  by code_simp

text \<open>
  The TypeScript emitter does sort: the keys of a written language module are in
  ascending order.
\<close>

lemma foldl_copy_keys:
  assumes "distinct ks" and "set ks \<inter> fst ` set acc = {}" and "\<forall>k \<in> set ks. map_of flat k \<noteq> None"
  shows "map fst (foldl (\<lambda>obj key. case map_of flat key of
                                      None \<Rightarrow> obj
                                    | Some v \<Rightarrow> AList.update key v obj) acc ks)
         = map fst acc @ ks"
  using assms
proof (induction ks arbitrary: acc)
  case Nil
  show ?case by simp
next
  case (Cons k ks)
  from Cons.prems obtain v where v: "map_of flat k = Some v" by auto
  have keys: "map fst (AList.update k v acc) = map fst acc @ [k]"
    using Cons.prems(2) by (simp add: update_keys)
  have "set ks \<inter> fst ` set (AList.update k v acc) = {}"
    using Cons.prems(1,2) by (auto simp add: dom_update)
  with Cons.IH [of "AList.update k v acc"] Cons.prems keys v
  show ?case by simp
qed

lemma sortedCopy_keys:
  assumes "distinct (map fst flat)"
  shows "map fst (sortedCopy flat) = sort (map fst flat)"
proof -
  have "\<forall>k \<in> set (sort (map fst flat)). map_of flat k \<noteq> None"
    by (auto simp add: map_of_eq_None_iff)
  with foldl_copy_keys [of "sort (map fst flat)" "[]" flat] assms
  show ?thesis by (simp add: sortedCopy_def)
qed

lemma typescript_module_sorted:
  "sorted (map fst (sortedCopy (langTable (translationsByLang (aggregateFiles files)) l)))"
  using sortedCopy_keys [OF langTable_distinct [OF aggregateFiles_tablesDistinct, of files l]]
  by simp

section \<open>The tree builder\<close>



lemma nodeAt_update:
  "nodeAt (AList.update part t cur) (p # ps) =
     (if p = part
      then (case t of Leaf s \<Rightarrow> if ps = [] then Some (Leaf s) else None
                    | Node children \<Rightarrow> nodeAt children ps)
      else nodeAt cur (p # ps))"
  by (simp add: update_conv')











end
